theory Spec2Isabelle
  imports Main
begin

section \<open>The kernel as the programs see it\<close>

text \<open>
  The three programs of the repository (\<open>picoshell\<close>, \<open>ft_popen\<close>/\<open>fd_popen\<close> and
  \<open>sandbox\<close>) are sequences of system calls. They are embedded as functions on the
  state of the calling process; what the kernel decides (whether \<open>pipe\<close> or \<open>fork\<close>
  fails, how a launched program ends, which terminated child \<open>wait\<close> reports next) is
  read from an environment record, so every theorem ranges over all those decisions.

  A descriptor refers to the read or the write endpoint of a channel created by the call
  under study (channels are numbered in creation order), or to an open file the process
  had before the call.
\<close>

datatype descr = ReadEnd nat | WriteEnd nat | Inherited nat

type_synonym fdtab = "int \<Rightarrow> descr option"

fun is_chan :: "descr \<Rightarrow> bool" where
  "is_chan (ReadEnd _) = True"
| "is_chan (WriteEnd _) = True"
| "is_chan (Inherited _) = False"

text \<open>
  The status word filled in by \<open>wait\<close>/\<open>waitpid\<close>, read only through the macros of
  \<open>sys/wait.h\<close>. The exit code is the one the kernel reports (the low eight bits).
\<close>

datatype wstatus = Exited nat | Signaled nat | Stopped nat

fun WIFEXITED :: "wstatus \<Rightarrow> bool" where
  "WIFEXITED (Exited _) = True"
| "WIFEXITED _ = False"

fun WEXITSTATUS :: "wstatus \<Rightarrow> nat" where
  "WEXITSTATUS (Exited c) = c"
| "WEXITSTATUS _ = 0"

fun WIFSIGNALED :: "wstatus \<Rightarrow> bool" where
  "WIFSIGNALED (Signaled _) = True"
| "WIFSIGNALED _ = False"

fun WTERMSIG :: "wstatus \<Rightarrow> nat" where
  "WTERMSIG (Signaled s) = s"
| "WTERMSIG _ = 0"

text \<open>
  How a process ends: by \<open>exit\<close> with a code, or killed by a signal. Only these two are
  ever reported by \<open>wait\<close> or by \<open>waitpid\<close> with options \<open>0\<close>; a stopped process is not.
\<close>

datatype ending = Exits nat | Killed nat

fun status_of :: "ending \<Rightarrow> wstatus" where
  "status_of (Exits c) = Exited c"
| "status_of (Killed s) = Signaled s"

text \<open>The system calls a child makes between \<open>fork\<close> and the end of the code shown.\<close>

datatype sysop =
    Dup2 int int
  | Close int
  | Execvp "string option" "string list"
  | Exit int
  | ReturnToCaller int

text \<open>
  A child process: the stage it was forked for, the descriptor table it inherited at
  \<open>fork\<close>, the calls it made, its table after them, and how it ends (\<open>None\<close>: the
  child never terminates).
\<close>

record child =
  cstage :: nat
  cinit :: fdtab
  cops :: "sysop list"
  cfds :: fdtab
  cend :: "ending option"

text \<open>
  The calling process: its descriptor table, its children that have not been waited
  for (in fork order), and the number of channels created so far.
\<close>

record proc =
  fdt :: fdtab
  kids :: "child list"
  nchan :: nat

record env =
  fd_limit :: nat
  pipe_fault :: "nat \<Rightarrow> bool"
  fork_fault :: "nat \<Rightarrow> bool"
  dup2_fault :: "nat \<Rightarrow> int \<Rightarrow> bool"
  exec_fault :: "nat \<Rightarrow> bool"
  fate :: "nat \<Rightarrow> ending option"
  pick :: "nat list \<Rightarrow> nat"

text \<open>
  \<open>fd_limit\<close> is the size of the descriptor table; \<open>pipe_fault i\<close>, \<open>fork_fault i\<close>,
  \<open>exec_fault i\<close> say that the call made for stage \<open>i\<close> fails for lack of resources (or,
  for \<open>execvp\<close>, because the program cannot be run); \<open>dup2_fault i fd\<close> that \<open>dup2\<close> onto
  \<open>fd\<close> fails in the child of stage \<open>i\<close>; \<open>fate i\<close> is how the program of stage \<open>i\<close> ends
  once it runs; \<open>pick\<close> chooses, among the stages whose terminated children are waiting
  to be collected, the position of the one \<open>wait\<close> reports.
\<close>

definition free_fds :: "nat \<Rightarrow> fdtab \<Rightarrow> int list" where
  "free_fds lim t = filter (\<lambda>fd. t fd = None) (map int [0..<lim])"

text \<open>\<open>pipe\<close> takes the two lowest free descriptors, the read endpoint first.\<close>

definition sys_pipe :: "env \<Rightarrow> nat \<Rightarrow> proc \<Rightarrow> (int \<times> int) option \<times> proc" where
  "sys_pipe e i p =
     (if pipe_fault e i then (None, p)
      else case free_fds (fd_limit e) (fdt p) of
             r # w # _ \<Rightarrow>
               (Some (r, w),
                p\<lparr>fdt := (fdt p)(r \<mapsto> ReadEnd (nchan p), w \<mapsto> WriteEnd (nchan p)),
                  nchan := Suc (nchan p)\<rparr>)
           | _ \<Rightarrow> (None, p))"

definition sys_close :: "int \<Rightarrow> proc \<Rightarrow> proc" where
  "sys_close fd p = p\<lparr>fdt := (fdt p)(fd := None)\<rparr>"

definition tab_dup2 :: "int \<Rightarrow> int \<Rightarrow> fdtab \<Rightarrow> fdtab" where
  "tab_dup2 old new t = (if old = new then t else t(new := t old))"

definition dup2_ok :: "env \<Rightarrow> nat \<Rightarrow> int \<Rightarrow> int \<Rightarrow> fdtab \<Rightarrow> bool" where
  "dup2_ok e i old new t = (t old \<noteq> None \<and> \<not> dup2_fault e i new)"

text \<open>
  \<open>wait\<close>: with no child left it fails (\<open>-1\<close>); with children of which none ever
  terminates it blocks for ever; otherwise it reports one terminated child, chosen by
  the kernel, and forgets it. (The caller is taken to have no signal handler that
  could interrupt the call.)
\<close>

datatype wait_result = Reaped wstatus | NoChild | Hang

definition reapable :: "child list \<Rightarrow> nat list" where
  "reapable ks = filter (\<lambda>k. cend (ks ! k) \<noteq> None) [0..<length ks]"

definition sys_wait :: "env \<Rightarrow> proc \<Rightarrow> wait_result \<times> proc" where
  "sys_wait e p =
     (case reapable (kids p) of
        [] \<Rightarrow> (if kids p = [] then NoChild else Hang, p)
      | k # ks \<Rightarrow>
          (let j = (k # ks) ! (pick e (map (\<lambda>n. cstage (kids p ! n)) (k # ks)) mod length (k # ks))
           in case cend (kids p ! j) of
                None \<Rightarrow> (Hang, p)
              | Some en \<Rightarrow>
                  (Reaped (status_of en),
                   p\<lparr>kids := take j (kids p) @ drop (Suc j) (kids p)\<rparr>)))"

section \<open>picoshell\<close>

text \<open>\<open>cmds[i][0]\<close>: the program name, \<open>NULL\<close> when the command has no token.\<close>

fun argv0 :: "string list \<Rightarrow> string option" where
  "argv0 [] = None"
| "argv0 (a # _) = Some a"

text \<open>
  The child branch of \<open>picoshell\<close> (\<open>pid == 0\<close>), for stage \<open>i\<close>, started on the table \<open>t\<close>
  it inherited: the standard input is taken from \<open>prev_fd\<close> when there is one, the
  standard output goes to the new pipe when a next command exists, then the image is
  replaced. A failing \<open>dup2\<close> or \<open>execvp\<close> ends the child with \<open>exit(1)\<close>. For a command
  without any token, \<open>cmds[i][0]\<close> is \<open>NULL\<close> and \<open>execvp\<close> reads through that pointer: the
  child is killed by \<open>SIGSEGV\<close> (signal 11) inside the call.
\<close>

definition child_main :: "env \<Rightarrow> string list list \<Rightarrow> nat \<Rightarrow> int \<Rightarrow> int \<times> int \<Rightarrow> fdtab \<Rightarrow> child" where
  "child_main e cmds i prev_fd pipefd t =
     (let more = Suc i < length cmds in
      if prev_fd \<noteq> -1 \<and> \<not> dup2_ok e i prev_fd 0 t then
        \<lparr>cstage = i, cinit = t, cops = [Dup2 prev_fd 0, Exit 1], cfds = t,
         cend = Some (Exits 1)\<rparr>
      else
        let t1 = (if prev_fd \<noteq> -1 then (tab_dup2 prev_fd 0 t)(prev_fd := None) else t);
            l1 = (if prev_fd \<noteq> -1 then [Dup2 prev_fd 0, Close prev_fd] else [])
        in
        if more \<and> \<not> dup2_ok e i (snd pipefd) 1 (t1(fst pipefd := None)) then
          \<lparr>cstage = i, cinit = t,
           cops = l1 @ [Close (fst pipefd), Dup2 (snd pipefd) 1, Exit 1],
           cfds = t1(fst pipefd := None), cend = Some (Exits 1)\<rparr>
        else
          let t2 = (if more
                    then (tab_dup2 (snd pipefd) 1 (t1(fst pipefd := None)))(snd pipefd := None)
                    else t1);
              l2 = l1 @ (if more
                         then [Close (fst pipefd), Dup2 (snd pipefd) 1, Close (snd pipefd)]
                         else [])
          in
          if argv0 (cmds ! i) = None then
            \<lparr>cstage = i, cinit = t, cops = l2 @ [Execvp None (cmds ! i)], cfds = t2,
             cend = Some (Killed 11)\<rparr>
          else if exec_fault e i then
            \<lparr>cstage = i, cinit = t, cops = l2 @ [Execvp (argv0 (cmds ! i)) (cmds ! i), Exit 1],
             cfds = t2,
             cend = Some (Exits 1)\<rparr>
          else
            \<lparr>cstage = i, cinit = t, cops = l2 @ [Execvp (argv0 (cmds ! i)) (cmds ! i)],
             cfds = t2,
             cend = fate e i\<rparr>)"

text \<open>
  One iteration of the launch loop from \<open>fork\<close> on. \<open>Inl\<close> is an early \<open>return\<close> of
  \<open>picoshell\<close> with that value; \<open>Inr\<close> carries \<open>prev_fd\<close> to the next iteration.
\<close>

definition spawn :: "env \<Rightarrow> string list list \<Rightarrow> nat \<Rightarrow> int \<Rightarrow> int \<times> int \<Rightarrow> proc \<Rightarrow> int \<times> proc + int \<times> proc" where
  "spawn e cmds i prev_fd pipefd p =
     (let more = Suc i < length cmds in
      if fork_fault e i then
        Inl (1, if more then sys_close (snd pipefd) (sys_close (fst pipefd) p) else p)
      else
        let p1 = p\<lparr>kids := kids p @ [child_main e cmds i prev_fd pipefd (fdt p)]\<rparr>;
            p2 = (if prev_fd \<noteq> -1 then sys_close prev_fd p1 else p1)
        in if more then Inr (fst pipefd, sys_close (snd pipefd) p2) else Inr (prev_fd, p2))"

text \<open>
  The body of \<open>while (cmds[i])\<close>. The array \<open>pipefd\<close> is written only by \<open>pipe\<close> and read
  only when \<open>cmds[i + 1]\<close> exists; without a next command its content is not looked at.
\<close>

definition stage :: "env \<Rightarrow> string list list \<Rightarrow> nat \<Rightarrow> int \<Rightarrow> proc \<Rightarrow> int \<times> proc + int \<times> proc" where
  "stage e cmds i prev_fd p =
     (if Suc i < length cmds then
        (case sys_pipe e i p of
           (None, p1) \<Rightarrow> Inl (1, p1)
         | (Some pipefd, p1) \<Rightarrow> spawn e cmds i prev_fd pipefd p1)
      else spawn e cmds i prev_fd (-1, -1) p)"

function launch :: "env \<Rightarrow> string list list \<Rightarrow> nat \<Rightarrow> int \<Rightarrow> proc \<Rightarrow> int option \<times> int \<times> proc" where
  "launch e cmds i prev_fd p =
     (if i < length cmds then
        (case stage e cmds i prev_fd p of
           Inl (r, p') \<Rightarrow> (Some r, prev_fd, p')
         | Inr (prev_fd', p') \<Rightarrow> launch e cmds (Suc i) prev_fd' p')
      else (None, prev_fd, p))"
  by pat_completeness auto
termination
  by (relation "measure (\<lambda>(e, cmds, i, prev_fd, p). length cmds - i)") auto

datatype result = Returns int | Blocks

lemma sys_wait_Reaped:
  assumes "sys_wait e p = (Reaped st, p')"
  shows "\<exists>j<length (kids p). \<exists>en. cend (kids p ! j) = Some en \<and> st = status_of en \<and>
           p' = p\<lparr>kids := take j (kids p) @ drop (Suc j) (kids p)\<rparr>"
proof (cases "reapable (kids p)")
  case Nil
  with assms show ?thesis by (simp add: sys_wait_def split: if_splits)
next
  case (Cons k ks)
  define j where "j = (k # ks) ! (pick e (map (\<lambda>n. cstage (kids p ! n)) (k # ks)) mod length (k # ks))"
  have "j \<in> set (k # ks)" unfolding j_def by (rule nth_mem) simp
  then have "j \<in> set (reapable (kids p))" using Cons by simp
  then have jlt: "j < length (kids p)" by (simp add: reapable_def)
  from assms Cons have "\<exists>en. cend (kids p ! j) = Some en \<and> st = status_of en \<and>
      p' = p\<lparr>kids := take j (kids p) @ drop (Suc j) (kids p)\<rparr>"
    by (auto simp: sys_wait_def Let_def j_def split: option.splits)
  with jlt show ?thesis by blast
qed

lemma sys_wait_Reaped_length:
  "sys_wait e p = (Reaped st, p') \<Longrightarrow> length (kids p') < length (kids p)"
  by (auto dest!: sys_wait_Reaped)

function wait_all :: "env \<Rightarrow> proc \<Rightarrow> int \<Rightarrow> result \<times> proc" where
  "wait_all e p exit_code =
     (case sys_wait e p of
        (Reaped status, p') \<Rightarrow>
          wait_all e p' (if WIFEXITED status \<and> WEXITSTATUS status \<noteq> 0 then 1 else exit_code)
      | (NoChild, p') \<Rightarrow> (Returns exit_code, p')
      | (Hang, p') \<Rightarrow> (Blocks, p'))"
  by pat_completeness auto
termination
  by (relation "measure (\<lambda>(e, p, exit_code). length (kids p))")
     (auto dest: sys_wait_Reaped_length [OF sym])

definition picoshell :: "env \<Rightarrow> string list list \<Rightarrow> proc \<Rightarrow> result \<times> proc" where
  "picoshell e cmds p =
     (case launch e cmds 0 (-1) p of
        (Some r, _, p') \<Rightarrow> (Returns r, p')
      | (None, _, p') \<Rightarrow> wait_all e p' 0)"

text \<open>
  A calling process that has the descriptors of \<open>tbl\<close> open and no child of its own.
\<close>

definition fresh_proc :: "(int \<Rightarrow> nat option) \<Rightarrow> proc" where
  "fresh_proc tbl = \<lparr>fdt = (\<lambda>fd. map_option Inherited (tbl fd)), kids = [], nchan = 0\<rparr>"

definition stdio :: "int \<Rightarrow> nat option" where
  "stdio fd = (if 0 \<le> fd \<and> fd \<le> 2 then Some (nat fd) else None)"

text \<open>
  The state of the launch loop at its iteration boundaries: \<open>boundary_at e cmds p k\<close> is
  \<open>(prev_fd, process)\<close> once \<open>k\<close> iterations have completed (\<open>k = 0\<close>: on entry), and
  \<open>None\<close> when the loop does not get that far.
\<close>

primrec boundary_at :: "env \<Rightarrow> string list list \<Rightarrow> proc \<Rightarrow> nat \<Rightarrow> (int \<times> proc) option" where
  "boundary_at e cmds p 0 = Some (-1, p)"
| "boundary_at e cmds p (Suc k) =
     (case boundary_at e cmds p k of
        None \<Rightarrow> None
      | Some (prev_fd, q) \<Rightarrow>
          if k < length cmds then
            (case stage e cmds k prev_fd q of Inl _ \<Rightarrow> None | Inr st \<Rightarrow> Some st)
          else None)"




text \<open>
  The invariant of the launch loop, relative to the process \<open>p0\<close> on entry: after \<open>k\<close>
  iterations the table is the one on entry plus, between two stages, the read endpoint
  of the newest channel under \<open>prev_fd\<close>; one child has been forked per stage.
\<close>

definition linv :: "string list list \<Rightarrow> proc \<Rightarrow> nat \<Rightarrow> int \<Rightarrow> proc \<Rightarrow> bool" where
  "linv cmds p0 k prev_fd p \<longleftrightarrow>
     k \<le> length cmds \<and>
     (k < length cmds \<longrightarrow> nchan p = nchan p0 + k) \<and>
     (k = 0 \<longrightarrow> prev_fd = -1) \<and>
     (if 0 < k \<and> k < length cmds
      then fdt p = (fdt p0)(prev_fd \<mapsto> ReadEnd (nchan p0 + k - 1)) \<and> fdt p0 prev_fd = None \<and> 0 \<le> prev_fd
      else fdt p = fdt p0) \<and>
     map cstage (kids p) = map cstage (kids p0) @ [0..<k]"

text \<open>A child whose termination makes the wait loop set \<open>exit_code = 1\<close>.\<close>

definition failed :: "child \<Rightarrow> bool" where
  "failed c =
     (case cend c of
        None \<Rightarrow> False
      | Some en \<Rightarrow> WIFEXITED (status_of en) \<and> WEXITSTATUS (status_of en) \<noteq> 0)"

section \<open>ft_popen and fd_popen\<close>

text \<open>
  The child branch shared by \<open>ft_popen\<close> (practice.c) and \<open>fd_popen\<close> (ft_popen.c). It
  has no \<open>exit\<close> after \<open>execvp\<close>: when \<open>execvp\<close> fails the child runs on into the code
  written for the parent and returns to the caller.
\<close>

definition popen_child :: "env \<Rightarrow> string \<Rightarrow> string list \<Rightarrow> char \<Rightarrow> int \<times> int \<Rightarrow> fdtab \<Rightarrow> child" where
  "popen_child e file argv type fds t =
     (let old = (if type = CHR ''r'' then snd fds else fst fds);
          new = (if type = CHR ''r'' then 1 else 0)
      in
      if \<not> dup2_ok e 0 old new t then
        \<lparr>cstage = 0, cinit = t, cops = [Dup2 old new, Exit 1], cfds = t,
         cend = Some (Exits 1)\<rparr>
      else
        let t1 = ((tab_dup2 old new t)(fst fds := None))(snd fds := None);
            l1 = [Dup2 old new, Close (fst fds), Close (snd fds), Execvp (Some file) argv]
        in
        if exec_fault e 0 then
          \<lparr>cstage = 0, cinit = t,
           cops = l1 @ (if type = CHR ''r''
                        then [Close (snd fds), ReturnToCaller (fst fds)]
                        else [Close (fst fds), ReturnToCaller (snd fds)]),
           cfds = t1, cend = fate e 0\<rparr>
        else
          \<lparr>cstage = 0, cinit = t, cops = l1, cfds = t1, cend = fate e 0\<rparr>)"

text \<open>
  \<open>file\<close> and \<open>argv\<close> are pointers: \<open>None\<close> is \<open>NULL\<close>. The result is the returned
  descriptor (or \<open>-1\<close>) and the state of the calling process.
\<close>

definition ft_popen :: "env \<Rightarrow> string option \<Rightarrow> string list option \<Rightarrow> char \<Rightarrow> proc \<Rightarrow> int \<times> proc" where
  "ft_popen e file argv type p =
     (case file of
        None \<Rightarrow> (-1, p)
      | Some f \<Rightarrow>
          (case argv of
             None \<Rightarrow> (-1, p)
           | Some a \<Rightarrow>
               if type \<noteq> CHR ''r'' \<and> type \<noteq> CHR ''w'' then (-1, p)
               else
                 (case sys_pipe e 0 p of
                    (None, p1) \<Rightarrow> (-1, p1)
                  | (Some fds, p1) \<Rightarrow>
                      if fork_fault e 0 then
                        (-1, sys_close (snd fds) (sys_close (fst fds) p1))
                      else
                        let p2 = p1\<lparr>kids := kids p1 @ [popen_child e f a type fds (fdt p1)]\<rparr>
                        in if type = CHR ''r'' then (fst fds, sys_close (snd fds) p2)
                           else (snd fds, sys_close (fst fds) p2))))"

definition fd_popen :: "env \<Rightarrow> string option \<Rightarrow> string list option \<Rightarrow> char \<Rightarrow> proc \<Rightarrow> int \<times> proc" where
  "fd_popen e file argv type p =
     (case file of
        None \<Rightarrow> (-1, p)
      | Some f \<Rightarrow>
          (case argv of
             None \<Rightarrow> (-1, p)
           | Some a \<Rightarrow>
               if type \<noteq> CHR ''r'' \<and> type \<noteq> CHR ''w'' then (-1, p)
               else
                 (case sys_pipe e 0 p of
                    (None, p1) \<Rightarrow> (-1, p1)
                  | (Some fds, p1) \<Rightarrow>
                      if fork_fault e 0 then
                        (-1, sys_close (snd fds) (sys_close (fst fds) p1))
                      else
                        let p2 = p1\<lparr>kids := kids p1 @ [popen_child e f a type fds (fdt p1)]\<rparr>
                        in if type = CHR ''r'' then (fst fds, sys_close (snd fds) p2)
                           else (snd fds, sys_close (fst fds) p2))))"

section \<open>sandbox\<close>

text \<open>
  The supervisor's own calls, in order, and the lines it prints when \<open>verbose\<close>.
\<close>

datatype errno = EINTR | ECHILD

datatype sb_call =
    Sigaction_SIGALRM
  | Fork bool
  | Alarm nat
  | Waitpid_reaped wstatus
  | Waitpid_failed errno
  | Kill_SIGKILL
  | Waitpid_drain

datatype sb_msg = Msg_timed_out nat | Msg_nice | Msg_exit_code nat | Msg_signal nat

record sb_state =
  sb_child :: bool
  sb_calls :: "sb_call list"
  sb_out :: "sb_msg list"

text \<open>
  What the kernel decides for one call of \<open>sandbox\<close>: whether \<open>fork\<close> fails; when (in
  whole seconds after \<open>alarm\<close>) and how the process running \<open>f\<close> ends by itself, \<open>None\<close>
  when it never does; whether \<open>waitpid\<close> fails for a reason other than a signal.
\<close>

record sb_env =
  sb_fork_fault :: bool
  sb_end :: "(nat \<times> ending) option"
  sb_wait_fault :: bool

datatype waitpid_result = Got wstatus | Err errno | Never

text \<open>
  The first \<open>waitpid(pid, &status, 0)\<close>, made after \<open>alarm(timeout)\<close> with a handler
  installed without \<open>SA_RESTART\<close>. \<open>alarm(0)\<close> arms no timer. With a timer, the call is
  interrupted (\<open>EINTR\<close>) unless the child has ended before the timer expires. (The
  caller is taken not to block \<open>SIGALRM\<close>, and the timer not to expire before \<open>waitpid\<close>
  is entered.)
\<close>

definition sys_waitpid_alarm :: "sb_env \<Rightarrow> nat \<Rightarrow> waitpid_result" where
  "sys_waitpid_alarm e timeout =
     (case sb_end e of
        Some (t, en) \<Rightarrow>
          if timeout = 0 \<or> t < timeout
          then (if sb_wait_fault e then Err ECHILD else Got (status_of en))
          else Err EINTR
      | None \<Rightarrow> if timeout = 0 then Never else Err EINTR)"

definition sb_say :: "bool \<Rightarrow> sb_msg \<Rightarrow> sb_state \<Rightarrow> sb_state" where
  "sb_say verbose m s = (if verbose then s\<lparr>sb_out := sb_out s @ [m]\<rparr> else s)"

definition sb_do :: "sb_call \<Rightarrow> sb_state \<Rightarrow> sb_state" where
  "sb_do c s = s\<lparr>sb_calls := sb_calls s @ [c]\<rparr>"

definition sandbox :: "sb_env \<Rightarrow> nat \<Rightarrow> bool \<Rightarrow> result \<times> sb_state" where
  "sandbox e timeout verbose =
     (let s0 = sb_do Sigaction_SIGALRM \<lparr>sb_child = False, sb_calls = [], sb_out = []\<rparr> in
      if sb_fork_fault e then (Returns (-1), sb_do (Fork False) s0)
      else
        let s1 = sb_do (Alarm timeout) ((sb_do (Fork True) s0)\<lparr>sb_child := True\<rparr>) in
        case sys_waitpid_alarm e timeout of
          Never \<Rightarrow> (Blocks, s1)
        | Err en \<Rightarrow>
            if en = EINTR then
              (Returns 0,
               sb_say verbose (Msg_timed_out timeout)
                 ((sb_do Waitpid_drain (sb_do Kill_SIGKILL (sb_do (Waitpid_failed en) s1)))
                    \<lparr>sb_child := False\<rparr>))
            else (Returns (-1), sb_do (Waitpid_failed en) s1)
        | Got status \<Rightarrow>
            let s2 = (sb_do (Waitpid_reaped status) s1)\<lparr>sb_child := False\<rparr> in
            if WIFEXITED status then
              (if WEXITSTATUS status = 0 then (Returns 1, sb_say verbose Msg_nice s2)
               else (Returns 0, sb_say verbose (Msg_exit_code (WEXITSTATUS status)) s2))
            else if WIFSIGNALED status then
              (Returns 0, sb_say verbose (Msg_signal (WTERMSIG status)) s2)
            else (Returns (-1), s2))"

section \<open>Concrete runs\<close>

text \<open>
  An environment with a table of eight descriptors in which no call fails and every
  program exits with code \<open>0\<close>; the examples below change one decision at a time.
\<close>

definition env_ok :: env where
  "env_ok = \<lparr>fd_limit = 8, pipe_fault = (\<lambda>_. False), fork_fault = (\<lambda>_. False),
     dup2_fault = (\<lambda>_ _. False), exec_fault = (\<lambda>_. False),
     fate = (\<lambda>_. Some (Exits 0)), pick = (\<lambda>_. 0)\<rparr>"

text \<open>
  A caller that forked a child of its own before the call and has not waited for it;
  the child ends as \<open>en\<close>.
\<close>

definition with_child :: "ending \<Rightarrow> proc \<Rightarrow> proc" where
  "with_child en p =
     p\<lparr>kids := kids p @ [\<lparr>cstage = 0, cinit = fdt p, cops = [], cfds = fdt p, cend = Some en\<rparr>]\<rparr>"


definition sb_env_loop :: sb_env where
  "sb_env_loop = \<lparr>sb_fork_fault = False, sb_end = None, sb_wait_fault = False\<rparr>"

section \<open>The kernel calls and the launch loop\<close>

lemma free_fds_sorted: "sorted_wrt (<) (free_fds lim t)"
proof -
  have "sorted_wrt (<) (map int [0..<lim])"
    by (simp add: sorted_wrt_map sorted_wrt_upt)
  then show ?thesis
    unfolding free_fds_def by (rule sorted_wrt_filter)
qed

lemma free_fds_mem: "fd \<in> set (free_fds lim t) \<Longrightarrow> t fd = None \<and> 0 \<le> fd"
  by (auto simp: free_fds_def)

lemma free_fds_two:
  assumes "free_fds lim t = r # w # rest"
  shows "t r = None" "t w = None" "r < w" "0 \<le> r"
proof -
  have "r \<in> set (free_fds lim t)" "w \<in> set (free_fds lim t)"
    using assms by simp_all
  then show "t r = None" "t w = None" "0 \<le> r"
    using free_fds_mem by blast+
  show "r < w"
    using free_fds_sorted [of lim t] assms by simp
qed

lemma sys_pipe_None: "sys_pipe e i p = (None, p1) \<Longrightarrow> p1 = p"
  by (auto simp: sys_pipe_def split: if_splits list.splits)

lemma sys_pipe_Some:
  assumes "sys_pipe e i p = (Some (r, w), p1)"
  shows "fdt p r = None" "fdt p w = None" "r < w" "0 \<le> r"
    "p1 = p\<lparr>fdt := (fdt p)(r \<mapsto> ReadEnd (nchan p), w \<mapsto> WriteEnd (nchan p)),
            nchan := Suc (nchan p)\<rparr>"
proof -
  from assms obtain rest where f: "free_fds (fd_limit e) (fdt p) = r # w # rest"
    by (auto simp: sys_pipe_def split: if_splits list.splits)
  from free_fds_two [OF f] show "fdt p r = None" "fdt p w = None" "r < w" "0 \<le> r" .
  from assms show "p1 = p\<lparr>fdt := (fdt p)(r \<mapsto> ReadEnd (nchan p), w \<mapsto> WriteEnd (nchan p)),
            nchan := Suc (nchan p)\<rparr>"
    by (auto simp: sys_pipe_def split: if_splits list.splits)
qed

lemma linv_start: "linv cmds p0 0 (-1) p0"
  by (simp add: linv_def)

lemma child_main_stage: "cstage (child_main e cmds i prev_fd pipefd t) = i"
  by (simp add: child_main_def Let_def)


lemma linv_step:
  assumes inv: "linv cmds p0 k prev_fd p" and k: "k < length cmds"
    and st: "stage e cmds k prev_fd p = Inr (prev_fd', p')"
  shows "linv cmds p0 (Suc k) prev_fd' p'"
proof (cases "Suc k < length cmds")
  case True
  from st True obtain r w p1 where pp: "sys_pipe e k p = (Some (r, w), p1)"
    and sp: "spawn e cmds k prev_fd (r, w) p1 = Inr (prev_fd', p')"
    by (auto simp: stage_def split: option.splits prod.splits)
  note P = sys_pipe_Some [OF pp]
  from sp True have nf: "\<not> fork_fault e k" and pr: "prev_fd' = r"
    by (auto simp: spawn_def Let_def split: if_splits)
  show ?thesis
  proof (cases "k = 0")
    case True
    with inv have "prev_fd = -1" "fdt p = fdt p0" "nchan p = nchan p0" "map cstage (kids p) = map cstage (kids p0)"
      using k by (auto simp: linv_def)
    with sp P \<open>Suc k < length cmds\<close> True nf show ?thesis
      by (auto simp: linv_def spawn_def Let_def sys_close_def child_main_stage fun_eq_iff)
  next
    case False
    with inv k have a: "fdt p = (fdt p0)(prev_fd \<mapsto> ReadEnd (nchan p0 + k - 1))" "fdt p0 prev_fd = None" "0 \<le> prev_fd"
      "nchan p = nchan p0 + k" "map cstage (kids p) = map cstage (kids p0) @ [0..<k]"
      by (auto simp: linv_def)
    from a P have ne: "prev_fd \<noteq> r" "prev_fd \<noteq> w" "prev_fd \<noteq> -1" by auto
    from a P have r0: "fdt p0 r = None" by (auto split: if_splits)
    with sp P \<open>Suc k < length cmds\<close> False nf a ne show ?thesis
      by (auto simp: linv_def spawn_def Let_def sys_close_def child_main_stage fun_eq_iff)
  qed
next
  case False
  with k have last: "length cmds = Suc k" by simp
  from st False have sp: "spawn e cmds k prev_fd (-1, -1) p = Inr (prev_fd', p')"
    by (simp add: stage_def)
  show ?thesis
  proof (cases "k = 0")
    case True
    with inv k have "prev_fd = -1" "fdt p = fdt p0" "map cstage (kids p) = map cstage (kids p0)"
      by (auto simp: linv_def)
    with sp last True show ?thesis
      by (auto simp: linv_def spawn_def Let_def sys_close_def child_main_stage split: if_splits)
  next
    case False
    with inv k have a: "fdt p = (fdt p0)(prev_fd \<mapsto> ReadEnd (nchan p0 + k - 1))" "fdt p0 prev_fd = None" "0 \<le> prev_fd"
      "map cstage (kids p) = map cstage (kids p0) @ [0..<k]"
      by (auto simp: linv_def)
    with sp last False show ?thesis
      by (auto simp: linv_def spawn_def Let_def sys_close_def child_main_stage fun_eq_iff split: if_splits)
  qed
qed

lemma boundary_at_Suc:
  "boundary_at e cmds p0 (Suc k) = Some (prev_fd', p') \<Longrightarrow>
   \<exists>prev_fd p. boundary_at e cmds p0 k = Some (prev_fd, p) \<and> k < length cmds \<and>
     stage e cmds k prev_fd p = Inr (prev_fd', p')"
  by (auto split: option.splits if_splits sum.splits)

lemma boundary_inv:
  "boundary_at e cmds p0 k = Some (prev_fd, p) \<Longrightarrow> linv cmds p0 k prev_fd p"
proof (induction k arbitrary: prev_fd p)
  case 0
  then show ?case by (auto simp: linv_start)
next
  case (Suc k)
  from boundary_at_Suc [OF Suc.prems] obtain q pq where
    b: "boundary_at e cmds p0 k = Some (q, pq)" and k: "k < length cmds"
    and st: "stage e cmds k q pq = Inr (prev_fd, p)" by blast
  from Suc.IH [OF b] k st show ?case by (rule linv_step)
qed

text \<open>
  The boundaries are those of the run: from any of them the launch loop goes on as it
  does from the start, and when it completes it ends in the last one.
\<close>

lemma launch_boundary:
  "boundary_at e cmds p0 k = Some (prev_fd, p) \<Longrightarrow>
   launch e cmds 0 (-1) p0 = launch e cmds k prev_fd p"
proof (induction k arbitrary: prev_fd p)
  case 0
  then show ?case by simp
next
  case (Suc k)
  from boundary_at_Suc [OF Suc.prems] obtain q pq where
    b: "boundary_at e cmds p0 k = Some (q, pq)" and k: "k < length cmds"
    and st: "stage e cmds k q pq = Inr (prev_fd, p)" by blast
  have "launch e cmds k q pq = launch e cmds (Suc k) prev_fd p"
    using k st by (subst launch.simps) simp
  with Suc.IH [OF b] show ?case by simp
qed

lemma launch_done_boundary:
  "launch e cmds k prev_fd p = (None, prev_fd', p') \<Longrightarrow> k \<le> length cmds \<Longrightarrow>
   boundary_at e cmds p0 k = Some (prev_fd, p) \<Longrightarrow>
   boundary_at e cmds p0 (length cmds) = Some (prev_fd', p')"
proof (induction e cmds k prev_fd p rule: launch.induct)
  case (1 e cmds i prev_fd p)
  show ?case
  proof (cases "i < length cmds")
    case True
    with "1.prems"(1) obtain q pq where st: "stage e cmds i prev_fd p = Inr (q, pq)"
      and l: "launch e cmds (Suc i) q pq = (None, prev_fd', p')"
      by (subst (asm) launch.simps) (auto split: sum.splits prod.splits)
    have "boundary_at e cmds p0 (Suc i) = Some (q, pq)"
      using "1.prems"(3) True st by simp
    with "1.IH" [OF True st _ l] True show ?thesis by simp
  next
    case False
    with "1.prems" show ?thesis by (subst (asm) launch.simps) simp
  qed
qed

lemma sys_wait_NoChild: "sys_wait e p = (NoChild, p') \<Longrightarrow> kids p = [] \<and> p' = p"
  by (auto simp: sys_wait_def Let_def split: list.splits option.splits if_splits)

lemma reapable_Nil: "reapable ks = [] \<Longrightarrow> list_all (\<lambda>c. cend c = None) ks"
  by (auto simp: reapable_def filter_empty_conv list_all_length)

lemma sys_wait_Hang:
  assumes "sys_wait e p = (Hang, p')"
  shows "kids p \<noteq> [] \<and> list_all (\<lambda>c. cend c = None) (kids p) \<and> p' = p"
proof (cases "reapable (kids p)")
  case Nil
  with assms reapable_Nil [OF Nil] show ?thesis by (simp add: sys_wait_def split: if_splits)
next
  case (Cons k ks)
  define j where "j = (k # ks) ! (pick e (map (\<lambda>n. cstage (kids p ! n)) (k # ks)) mod length (k # ks))"
  have "j \<in> set (k # ks)" unfolding j_def by (rule nth_mem) simp
  then have "j \<in> set (reapable (kids p))" using Cons by simp
  then have "cend (kids p ! j) \<noteq> None" by (simp add: reapable_def)
  with assms Cons show ?thesis
    by (auto simp: sys_wait_def Let_def j_def split: option.splits)
qed

lemma list_ex_remove_nth:
  "j < length xs \<Longrightarrow> list_ex P xs = (P (xs ! j) \<or> list_ex P (take j xs @ drop (Suc j) xs))"
proof -
  assume "j < length xs"
  then have "xs = take j xs @ xs ! j # drop (Suc j) xs" by (rule id_take_nth_drop)
  then have "list_ex P xs = list_ex P (take j xs @ xs ! j # drop (Suc j) xs)" by simp
  then show ?thesis by (auto simp: list_ex_iff)
qed

lemma list_all_remove_nth:
  "list_all P xs \<Longrightarrow> list_all P (take j xs @ drop (Suc j) xs)"
  by (auto simp: list_all_iff dest: in_set_takeD in_set_dropD)

lemma wait_all_verdict:
  "list_all (\<lambda>c. cend c \<noteq> None) (kids p) \<Longrightarrow>
   wait_all e p exit_code =
     (Returns (if list_ex failed (kids p) then 1 else exit_code), p\<lparr>kids := []\<rparr>)"
proof (induction e p exit_code rule: wait_all.induct)
  case (1 e p exit_code)
  obtain res p' where sw: "sys_wait e p = (res, p')" by (cases "sys_wait e p")
  show ?case
  proof (cases res)
    case (Reaped st)
    from sys_wait_Reaped [OF sw [unfolded Reaped]] obtain j en where j: "j < length (kids p)"
      and stj: "cend (kids p ! j) = Some en" and sten: "st = status_of en"
      and p': "p' = p\<lparr>kids := take j (kids p) @ drop (Suc j) (kids p)\<rparr>" by blast
    have all': "list_all (\<lambda>c. cend c \<noteq> None) (kids p')"
      using list_all_remove_nth [OF "1.prems", of j] p' by simp
    have ih: "wait_all e p' (if WIFEXITED st \<and> WEXITSTATUS st \<noteq> 0 then 1 else exit_code) =
        (Returns (if list_ex failed (kids p') then 1
                  else (if WIFEXITED st \<and> WEXITSTATUS st \<noteq> 0 then 1 else exit_code)),
         p'\<lparr>kids := []\<rparr>)"
      using "1.IH" [OF sw [unfolded Reaped, symmetric] refl all'] .
    have fj: "failed (kids p ! j) = (WIFEXITED st \<and> WEXITSTATUS st \<noteq> 0)"
      by (simp add: failed_def stj sten)
    have ex: "list_ex failed (kids p) = (failed (kids p ! j) \<or> list_ex failed (kids p'))"
      using list_ex_remove_nth [OF j] p' by simp
    have "wait_all e p exit_code =
        wait_all e p' (if WIFEXITED st \<and> WEXITSTATUS st \<noteq> 0 then 1 else exit_code)"
      using sw Reaped by (subst wait_all.simps) simp
    with ih ex fj p' show ?thesis by auto
  next
    case NoChild
    from sys_wait_NoChild [OF sw [unfolded NoChild]] have "kids p = []" "p' = p" by simp_all
    moreover have "wait_all e p exit_code = (Returns exit_code, p')"
      using sw NoChild by (subst wait_all.simps) simp
    ultimately show ?thesis by simp
  next
    case Hang
    from sys_wait_Hang [OF sw [unfolded Hang]] "1.prems" show ?thesis
      by (cases "kids p") auto
  qed
qed


lemma stage_Inr_kid:
  assumes "stage e cmds i prev_fd p = Inr (prev_fd', p')"
  shows "\<exists>pipefd p1. (if Suc i < length cmds
                      then sys_pipe e i p = (Some pipefd, p1) \<and> prev_fd' = fst pipefd
                      else p1 = p \<and> prev_fd' = prev_fd) \<and>
           kids p' = kids p1 @ [child_main e cmds i prev_fd pipefd (fdt p1)]"
proof (cases "Suc i < length cmds")
  case True
  with assms obtain pipefd p1 where pp: "sys_pipe e i p = (Some pipefd, p1)"
    and sp: "spawn e cmds i prev_fd pipefd p1 = Inr (prev_fd', p')"
    by (auto simp: stage_def split: option.splits prod.splits)
  from sp True have "prev_fd' = fst pipefd"
    "kids p' = kids p1 @ [child_main e cmds i prev_fd pipefd (fdt p1)]"
    by (auto simp: spawn_def Let_def sys_close_def split: if_splits)
  with pp True show ?thesis by auto
next
  case False
  with assms have sp: "spawn e cmds i prev_fd (-1, -1) p = Inr (prev_fd', p')"
    by (simp add: stage_def)
  from sp False have "prev_fd' = prev_fd"
    "kids p' = kids p @ [child_main e cmds i prev_fd (-1, -1) (fdt p)]"
    by (auto simp: spawn_def Let_def sys_close_def split: if_splits)
  with False show ?thesis by auto
qed

text \<open>
  The children at a boundary are those the caller had on entry followed by one child
  per stage launched, in order.
\<close>

lemma boundary_kids:
  "boundary_at e cmds p0 k = Some (prev_fd, p) \<Longrightarrow>
   \<exists>ks. kids p = kids p0 @ ks \<and> map cstage ks = [0..<k]"
proof (induction k arbitrary: prev_fd p)
  case 0
  then show ?case by auto
next
  case (Suc k)
  from boundary_at_Suc [OF Suc.prems] obtain q pq where
    b: "boundary_at e cmds p0 k = Some (q, pq)" and k: "k < length cmds"
    and st: "stage e cmds k q pq = Inr (prev_fd, p)" by blast
  from Suc.IH [OF b] obtain ks where ks: "kids pq = kids p0 @ ks" "map cstage ks = [0..<k]"
    by blast
  from stage_Inr_kid [OF st] obtain pipefd p1 where
    pp: "if Suc k < length cmds then sys_pipe e k pq = (Some pipefd, p1) \<and> prev_fd = fst pipefd
         else p1 = pq \<and> prev_fd = q"
    and kp: "kids p = kids p1 @ [child_main e cmds k q pipefd (fdt p1)]" by blast
  have "kids p1 = kids pq"
  proof (cases "Suc k < length cmds")
    case True
    obtain r w where "pipefd = (r, w)" by (cases pipefd)
    with pp True sys_pipe_Some(5) [of e k pq r w p1] show ?thesis by simp
  next
    case False
    with pp show ?thesis by simp
  qed
  with kp ks have "kids p = kids p0 @ (ks @ [child_main e cmds k q pipefd (fdt p1)])"
    "map cstage (ks @ [child_main e cmds k q pipefd (fdt p1)]) = [0..<Suc k]"
    by (simp_all add: child_main_stage)
  then show ?case by blast
qed

lemma launch_kids:
  assumes "launch e cmds 0 (-1) p0 = (None, prev_fd, p)"
  shows "\<exists>ks. kids p = kids p0 @ ks \<and> map cstage ks = [0..<length cmds]"
proof -
  have "boundary_at e cmds p0 (length cmds) = Some (prev_fd, p)"
    using launch_done_boundary [OF assms, of p0] by simp
  from boundary_kids [OF this] show ?thesis .
qed

section \<open>The completion barrier and the verdict\<close>

text \<open>
  C1. A stage ended by a signal must make the verdict \<open>1\<close>. The code counts only
  \<open>WIFEXITED(status) && WEXITSTATUS(status) != 0\<close>: in the pipeline \<open>cat | wc\<close> whose second
  stage is killed by signal 11 while the first exits with 0, \<open>picoshell\<close> returns \<open>0\<close>.
\<close>

theorem picoshell_signaled_stage_returns_0:
  "fst (picoshell (env_ok\<lparr>fate := (\<lambda>i. if i = 1 then Some (Killed 11) else Some (Exits 0))\<rparr>)
         [[''cat''], [''wc'']] (fresh_proc stdio)) = Returns 0"
  by code_simp

text \<open>
  The same defect through the repository's \<open>main\<close>, which builds a command without
  tokens for an argument list such as \<open>"|"\<close>: the child is killed inside \<open>execvp\<close> and
  \<open>picoshell\<close> returns \<open>0\<close>.
\<close>

lemma picoshell_empty_command_returns_0:
  "fst (picoshell env_ok [[]] (fresh_proc stdio)) = Returns 0"
  by code_simp

text \<open>
  What the wait loop does get right: when the launch loop completes and every child
  terminates, a child that exits with a non-zero code makes the verdict \<open>1\<close>, wherever it
  stands and whenever it is reported.
\<close>

lemma picoshell_nonzero_exit_returns_1:
  assumes "launch e cmds 0 (-1) (fresh_proc tbl) = (None, prev_fd, p)"
    and "list_all (\<lambda>c. cend c \<noteq> None) (kids p)"
    and "list_ex failed (kids p)"
  shows "picoshell e cmds (fresh_proc tbl) = (Returns 1, p\<lparr>kids := []\<rparr>)"
  using assms(1,3) wait_all_verdict [OF assms(2), of e 0] by (simp add: picoshell_def)

text \<open>
  The barrier has no timeout: with a child that never terminates the call never
  returns.
\<close>

lemma wait_all_blocks:
  "list_ex (\<lambda>c. cend c = None) (kids p) \<Longrightarrow> fst (wait_all e p exit_code) = Blocks"
proof (induction e p exit_code rule: wait_all.induct)
  case (1 e p exit_code)
  obtain res p' where sw: "sys_wait e p = (res, p')" by (cases "sys_wait e p")
  show ?case
  proof (cases res)
    case (Reaped st)
    from sys_wait_Reaped [OF sw [unfolded Reaped]] obtain j en where j: "j < length (kids p)"
      and stj: "cend (kids p ! j) = Some en" and sten: "st = status_of en"
      and p': "p' = p\<lparr>kids := take j (kids p) @ drop (Suc j) (kids p)\<rparr>" by blast
    have "list_ex (\<lambda>c. cend c = None) (kids p')"
      using list_ex_remove_nth [OF j, of "\<lambda>c. cend c = None"] "1.prems" stj p' by simp
    from "1.IH" [OF sw [unfolded Reaped, symmetric] refl this]
    show ?thesis using sw Reaped by (subst wait_all.simps) simp
  next
    case NoChild
    from sys_wait_NoChild [OF sw [unfolded NoChild]] "1.prems" show ?thesis by simp
  next
    case Hang
    with sw show ?thesis by (subst wait_all.simps) simp
  qed
qed

text \<open>
  C7. A single stage that does not exit with code zero must give \<open>1\<close>; a single stage
  killed by signal 9 gives \<open>0\<close> (the defect of C1), though no channel is created.
\<close>

theorem picoshell_single_stage_killed_returns_0:
  "fst (picoshell (env_ok\<lparr>fate := (\<lambda>_. Some (Killed 9))\<rparr>) [[''a.out'']] (fresh_proc stdio))
     = Returns 0
   \<and> nchan (snd (picoshell (env_ok\<lparr>fate := (\<lambda>_. Some (Killed 9))\<rparr>) [[''a.out'']]
         (fresh_proc stdio))) = 0"
  by code_simp

text \<open>
  A single stage in general: no channel is created, and once the child has terminated
  the verdict is \<open>1\<close> exactly when the child exited with a non-zero code; the process is
  left as it was found.
\<close>

lemma picoshell_single_stage:
  assumes "\<not> fork_fault e 0"
    and "cend (child_main e [c] 0 (-1) (-1, -1) (fdt (fresh_proc tbl))) = Some en"
  shows "picoshell e [c] (fresh_proc tbl) =
           (Returns (if WIFEXITED (status_of en) \<and> WEXITSTATUS (status_of en) \<noteq> 0 then 1 else 0),
            fresh_proc tbl)"
proof -
  let ?K = "child_main e [c] 0 (-1) (-1, -1) (fdt (fresh_proc tbl))"
  let ?p = "(fresh_proc tbl)\<lparr>kids := [?K]\<rparr>"
  have l: "launch e [c] 0 (-1) (fresh_proc tbl) = (None, -1, ?p)"
    using assms(1) by (simp add: stage_def spawn_def Let_def fresh_proc_def)
  have w1: "sys_wait e ?p = (Reaped (status_of en), fresh_proc tbl)"
    using assms(2) by (simp add: sys_wait_def reapable_def fresh_proc_def)
  have w2: "sys_wait e (fresh_proc tbl) = (NoChild, fresh_proc tbl)"
    by (simp add: sys_wait_def reapable_def fresh_proc_def)
  have "wait_all e ?p 0 =
      (Returns (if WIFEXITED (status_of en) \<and> WEXITSTATUS (status_of en) \<noteq> 0 then 1 else 0),
       fresh_proc tbl)"
    by (subst wait_all.simps, simp only: w1 prod.case wait_result.case)
       (subst wait_all.simps, simp add: w2)
  with l show ?thesis by (simp add: picoshell_def)
qed

text \<open>
  C2, with the caller's own children taken into account. \<open>wait\<close> reports any child of
  the calling process. When the launch loop completes (no \<open>pipe\<close> and no \<open>fork\<close> failed)
  and every child the caller then has (one per stage by \<open>launch_kids\<close>, after those it
  had on entry and has not waited for) terminates normally with exit code \<open>0\<close>,
  \<open>picoshell\<close> returns \<open>0\<close>, whichever order \<open>wait\<close> reports the children in, and has
  collected every child.
\<close>

theorem picoshell_all_exit_zero_returns_0:
  assumes "launch e cmds 0 (-1) p0 = (None, prev_fd, p)"
    and "list_all (\<lambda>c. cend c = Some (Exits 0)) (kids p)"
  shows "picoshell e cmds p0 = (Returns 0, p\<lparr>kids := []\<rparr>)"
proof -
  have t: "list_all (\<lambda>c. cend c \<noteq> None) (kids p)"
    using assms(2) by (auto simp: list_all_iff)
  have nf: "\<not> list_ex failed (kids p)"
    using assms(2) by (auto simp: list_all_iff list_ex_iff failed_def)
  show ?thesis
    using assms(1) wait_all_verdict [OF t, of e 0] nf by (simp add: picoshell_def)
qed

theorem picoshell_all_exit_zero_returns_0_witness:
  "fst (launch env_ok [[''echo'', ''hello''], [''tr'', ''a-z'', ''A-Z'']] 0 (-1)
         (with_child (Exits 0) (fresh_proc stdio))) = None
   \<and> list_all (\<lambda>c. cend c = Some (Exits 0))
        (kids (snd (snd (launch env_ok [[''echo'', ''hello''], [''tr'', ''a-z'', ''A-Z'']] 0 (-1)
           (with_child (Exits 0) (fresh_proc stdio))))))
   \<and> length (kids (snd (snd (launch env_ok [[''echo'', ''hello''], [''tr'', ''a-z'', ''A-Z'']] 0 (-1)
           (with_child (Exits 0) (fresh_proc stdio)))))) = 3
   \<and> fst (picoshell env_ok [[''echo'', ''hello''], [''tr'', ''a-z'', ''A-Z'']]
         (with_child (Exits 0) (fresh_proc stdio))) = Returns 0"
proof -
  let ?L = "launch env_ok [[''echo'', ''hello''], [''tr'', ''a-z'', ''A-Z'']] 0 (-1)
              (with_child (Exits 0) (fresh_proc stdio))"
  have a: "fst ?L = None" by code_simp
  have b: "list_all (\<lambda>c. cend c = Some (Exits 0)) (kids (snd (snd ?L)))" by code_simp
  have c: "length (kids (snd (snd ?L))) = 3" by code_simp
  have l: "?L = (None, fst (snd ?L), snd (snd ?L))"
    using a by (metis prod.collapse)
  from picoshell_all_exit_zero_returns_0 [OF l b] a b c show ?thesis by simp
qed

text \<open>
  The claim without that condition fails: the caller below has a child of its own that
  exits with code 5; the launch loop completes, the only stage exits with code 0, and
  \<open>picoshell\<close> returns \<open>1\<close>.
\<close>

theorem picoshell_callers_child_changes_verdict:
  "fst (launch env_ok [[''true'']] 0 (-1) (with_child (Exits 5) (fresh_proc stdio))) = None
   \<and> map cstage (drop 1 (kids (snd (snd (launch env_ok [[''true'']] 0 (-1)
         (with_child (Exits 5) (fresh_proc stdio))))))) = [0]
   \<and> map cend (drop 1 (kids (snd (snd (launch env_ok [[''true'']] 0 (-1)
         (with_child (Exits 5) (fresh_proc stdio))))))) = [Some (Exits 0)]
   \<and> fst (picoshell env_ok [[''true'']] (with_child (Exits 5) (fresh_proc stdio))) = Returns 1"
  by code_simp

section \<open>Descriptors held by the orchestrator\<close>

text \<open>
  C5. At every iteration boundary of the launch loop (\<open>k = 0\<close>: on entry; \<open>k\<close> equal to the
  number of stages: after the last stage), a descriptor of the orchestrator that refers
  to an endpoint of a channel created by the call is the one stored in \<open>prev_fd\<close>, and it
  refers to the read endpoint of the channel allocated for the stage just launched. So
  at most one such descriptor is open, none is a write endpoint, and there is none on
  entry and none after the last stage.
\<close>

theorem picoshell_parent_holds_only_pending_read_end:
  assumes "boundary_at e cmds (fresh_proc tbl) k = Some (prev_fd, p)"
    and "fdt p fd = Some d" and "is_chan d"
  shows "fd = prev_fd \<and> d = ReadEnd (k - 1) \<and> 0 < k \<and> k < length cmds"
proof -
  from boundary_inv [OF assms(1)] have inv: "linv cmds (fresh_proc tbl) k prev_fd p" .
  have base: "fdt (fresh_proc tbl) fd = Some d \<Longrightarrow> False"
    using assms(3) by (cases "tbl fd") (auto simp: fresh_proc_def)
  show ?thesis
  proof (cases "0 < k \<and> k < length cmds")
    case True
    with inv have "fdt p = (fdt (fresh_proc tbl))(prev_fd \<mapsto> ReadEnd (k - 1))"
      by (simp add: linv_def fresh_proc_def)
    with assms(2) base True show ?thesis by (auto split: if_splits)
  next
    case False
    with inv have "fdt p = fdt (fresh_proc tbl)" by (auto simp: linv_def)
    with assms(2) base show ?thesis by simp
  qed
qed

theorem picoshell_parent_holds_only_pending_read_end_witness:
  "case boundary_at env_ok [[''ls''], [''grep'', ''txt''], [''wc'', ''-l'']] (fresh_proc stdio) 2 of
     None \<Rightarrow> False
   | Some (prev_fd, p) \<Rightarrow>
       fdt p 4 = Some (ReadEnd 1) \<and> is_chan (ReadEnd 1) \<and> prev_fd = 4"
proof -
  let ?B = "boundary_at env_ok [[''ls''], [''grep'', ''txt''], [''wc'', ''-l'']] (fresh_proc stdio) 2"
  have "case ?B of None \<Rightarrow> False | Some (prev_fd, p) \<Rightarrow> fdt p 4 = Some (ReadEnd 1)"
    by code_simp
  then obtain prev_fd p where b: "?B = Some (prev_fd, p)" and f: "fdt p 4 = Some (ReadEnd 1)"
    by (auto split: option.splits)
  have c: "is_chan (ReadEnd 1)" by simp
  from picoshell_parent_holds_only_pending_read_end [OF b f c] have "prev_fd = 4" by simp
  with b f c show ?thesis by simp
qed

section \<open>Descriptor wiring in the children\<close>




section \<open>Failures while the pipeline is built\<close>

text \<open>
  What the two failure paths have in common: an iteration in which \<open>pipe\<close> or \<open>fork\<close>
  fails forks no child, no later stage is launched, and \<open>picoshell\<close> returns \<open>1\<close> at
  once, in the state that iteration left.
\<close>

lemma stage_Inl:
  assumes "stage e cmds i prev_fd p = Inl (r, p')"
  shows "r = 1" and "kids p' = kids p"
proof -
  have "r = 1 \<and> kids p' = kids p"
  proof (cases "Suc i < length cmds")
    case True
    show ?thesis
    proof (cases "sys_pipe e i p")
      case (Pair res p1)
      show ?thesis
      proof (cases res)
        case None
        with assms True Pair sys_pipe_None [of e i p p1] show ?thesis
          by (simp add: stage_def)
      next
        case (Some pipefd)
        obtain r0 w0 where rw: "pipefd = (r0, w0)" by (cases pipefd)
        from sys_pipe_Some(5) [of e i p r0 w0 p1] Pair Some rw
        have "kids p1 = kids p" by simp
        with assms True Pair Some show ?thesis
          by (auto simp: stage_def spawn_def Let_def sys_close_def split: if_splits)
      qed
    qed
  next
    case False
    with assms show ?thesis
      by (auto simp: stage_def spawn_def Let_def sys_close_def split: if_splits)
  qed
  then show "r = 1" and "kids p' = kids p" by simp_all
qed

lemma picoshell_construction_failure:
  assumes "boundary_at e cmds p0 k = Some (prev_fd, p)" and "k < length cmds"
    and "stage e cmds k prev_fd p = Inl (r, p')"
  shows "picoshell e cmds p0 = (Returns 1, p')" and "kids p' = kids p"
proof -
  from stage_Inl [OF assms(3)] show "kids p' = kids p" by simp
  have "launch e cmds k prev_fd p = (Some 1, prev_fd, p')"
    using assms(2,3) stage_Inl(1) [OF assms(3)] by (subst launch.simps) simp
  with launch_boundary [OF assms(1)] show "picoshell e cmds p0 = (Returns 1, p')"
    by (simp add: picoshell_def)
qed

text \<open>
  C3. \<open>fork\<close> fails for the second stage of \<open>ls | wc\<close>: \<open>picoshell\<close> returns \<open>1\<close> at once,
  with the first child not waited for and the read endpoint of the first channel
  (descriptor 3, held in \<open>prev_fd\<close>) still open.
\<close>

theorem picoshell_fork_failure_leaves_child_and_prev_fd:
  "fst (picoshell (env_ok\<lparr>fork_fault := (\<lambda>i. i = 1)\<rparr>) [[''ls''], [''wc'']] (fresh_proc stdio))
     = Returns 1
   \<and> map cstage (kids (snd (picoshell (env_ok\<lparr>fork_fault := (\<lambda>i. i = 1)\<rparr>)
         [[''ls''], [''wc'']] (fresh_proc stdio)))) = [0]
   \<and> fdt (snd (picoshell (env_ok\<lparr>fork_fault := (\<lambda>i. i = 1)\<rparr>)
         [[''ls''], [''wc'']] (fresh_proc stdio))) 3 = Some (ReadEnd 0)"
  by code_simp

text \<open>
  C4. \<open>pipe\<close> fails for the second stage of \<open>ls | grep | wc\<close>: \<open>picoshell\<close> returns \<open>1\<close> at
  once, with the first child not waited for and the read endpoint of the first channel
  (descriptor 3, held in \<open>prev_fd\<close>) still open.
\<close>

theorem picoshell_pipe_failure_leaves_child_and_prev_fd:
  "fst (picoshell (env_ok\<lparr>pipe_fault := (\<lambda>i. i = 1)\<rparr>)
         [[''ls''], [''grep'', ''txt''], [''wc'']] (fresh_proc stdio)) = Returns 1
   \<and> map cstage (kids (snd (picoshell (env_ok\<lparr>pipe_fault := (\<lambda>i. i = 1)\<rparr>)
         [[''ls''], [''grep'', ''txt''], [''wc'']] (fresh_proc stdio)))) = [0]
   \<and> fdt (snd (picoshell (env_ok\<lparr>pipe_fault := (\<lambda>i. i = 1)\<rparr>)
         [[''ls''], [''grep'', ''txt''], [''wc'']] (fresh_proc stdio))) 3 = Some (ReadEnd 0)"
  by code_simp

section \<open>The empty pipeline\<close>

text \<open>
  C8, as the code has it. \<open>picoshell\<close> validates nothing: with no stage at all
  (\<open>cmds[0] == NULL\<close>) the launch loop and the wait loop both end at once, no channel
  and no process is created, and \<open>picoshell\<close> returns \<open>0\<close>, the value it returns for
  success, in every environment.
\<close>

theorem picoshell_no_stage_returns_0:
  "picoshell e [] (fresh_proc tbl) = (Returns 0, fresh_proc tbl)"
  by (simp add: picoshell_def sys_wait_def reapable_def fresh_proc_def)

text \<open>The claim asks for an error result; the run below returns \<open>0\<close>.\<close>

theorem picoshell_no_stage_is_not_an_error:
  "fst (picoshell env_ok [] (fresh_proc stdio)) = Returns 0"
  by code_simp

section \<open>The single-stage launcher\<close>

text \<open>
  C10. When \<open>file\<close> is \<open>NULL\<close>, or \<open>argv\<close> is \<open>NULL\<close>, or the mode is neither \<open>'r'\<close> nor
  \<open>'w'\<close>, both \<open>ft_popen\<close> and \<open>fd_popen\<close> return \<open>-1\<close> and leave the calling process as it
  was: no descriptor has been opened and no child forked.
\<close>

theorem popen_rejects_bad_arguments:
  assumes "file = None \<or> argv = None \<or> (type \<noteq> CHR ''r'' \<and> type \<noteq> CHR ''w'')"
  shows "ft_popen e file argv type p = (-1, p) \<and> fd_popen e file argv type p = (-1, p)"
  using assms by (auto simp: ft_popen_def fd_popen_def split: option.splits)

theorem popen_rejects_bad_arguments_witness:
  "ft_popen env_ok (Some ''ls'') (Some [''ls'', ''-l'']) (CHR ''x'') (fresh_proc stdio)
     = (-1, fresh_proc stdio)
   \<and> fd_popen env_ok (Some ''ls'') (Some [''ls'', ''-l'']) (CHR ''x'') (fresh_proc stdio)
     = (-1, fresh_proc stdio)"
proof -
  have h: "Some ''ls'' = None \<or> Some [''ls'', ''-l''] = None
           \<or> (CHR ''x'' \<noteq> CHR ''r'' \<and> CHR ''x'' \<noteq> CHR ''w'')" by simp
  from popen_rejects_bad_arguments [OF h] show ?thesis .
qed

text \<open>With acceptable arguments the launcher does open a pipe and fork.\<close>

lemma popen_accepts_good_arguments:
  "fst (ft_popen env_ok (Some ''ls'') (Some [''ls'', ''-l'']) (CHR ''r'') (fresh_proc stdio)) = 3
   \<and> map cstage (kids (snd (ft_popen env_ok (Some ''ls'') (Some [''ls'', ''-l'']) (CHR ''r'')
        (fresh_proc stdio)))) = [0]
   \<and> fst (fd_popen env_ok (Some ''wc'') (Some [''wc'']) (CHR ''w'') (fresh_proc stdio)) = 4"
  by code_simp

section \<open>The supervisor with a deadline\<close>

text \<open>
  C9. A unit of work that has not ended at the deadline must be killed, collected and
  reported as \<open>0\<close>. The deadline is handed to \<open>alarm\<close> unchanged and \<open>alarm(0)\<close> arms no
  timer: with \<open>timeout = 0\<close> and a unit of work that never ends, the wait is never
  interrupted and \<open>sandbox\<close> does not return.
\<close>

theorem sandbox_zero_timeout_never_returns:
  "fst (sandbox sb_env_loop 0 False) = Blocks"
  by code_simp

text \<open>
  For a positive timeout the supervisor does what is asked. When \<open>fork\<close> succeeds and
  the process running the unit of work has not ended when the timer expires, the first
  \<open>waitpid\<close> fails with \<open>EINTR\<close>, the supervisor sends \<open>SIGKILL\<close>, calls \<open>waitpid\<close> a
  second time and returns \<open>0\<close>, leaving no child behind; and in every case the result is
  \<open>1\<close>, \<open>0\<close> or \<open>-1\<close>.
\<close>

lemma sandbox_timeout_kills_and_drains:
  assumes "0 < timeout"
  shows "(\<not> sb_fork_fault e \<and> (case sb_end e of None \<Rightarrow> True | Some (t, st) \<Rightarrow> timeout \<le> t) \<longrightarrow>
            sandbox e timeout verbose =
              (Returns 0,
               \<lparr>sb_child = False,
                sb_calls = [Sigaction_SIGALRM, Fork True, Alarm timeout, Waitpid_failed EINTR,
                            Kill_SIGKILL, Waitpid_drain],
                sb_out = (if verbose then [Msg_timed_out timeout] else [])\<rparr>))
       \<and> fst (sandbox e timeout verbose) \<in> {Returns 1, Returns 0, Returns (-1)}"
  using assms
  by (auto simp: sandbox_def sys_waitpid_alarm_def sb_do_def sb_say_def Let_def
      split: option.splits waitpid_result.splits prod.splits)

lemma sandbox_timeout_example:
  "sandbox sb_env_loop 2 True =
     (Returns 0,
      \<lparr>sb_child = False,
       sb_calls = [Sigaction_SIGALRM, Fork True, Alarm 2, Waitpid_failed EINTR,
                   Kill_SIGKILL, Waitpid_drain],
       sb_out = [Msg_timed_out 2]\<rparr>)
   \<and> fst (sandbox sb_env_loop 2 True) \<in> {Returns 1, Returns 0, Returns (-1)}"
proof -
  have h: "(0::nat) < 2" by simp
  from sandbox_timeout_kills_and_drains [OF h, of sb_env_loop True]
  show ?thesis by (simp add: sb_env_loop_def)
qed

text \<open>
  Whatever the timeout, a call of \<open>sandbox\<close> that returns gives \<open>1\<close>, \<open>0\<close> or \<open>-1\<close>; and
  it returns unless the timeout is \<open>0\<close> and the unit of work never ends.
\<close>

lemma sandbox_result: "fst (sandbox e timeout verbose) \<in> {Returns 1, Returns 0, Returns (-1), Blocks}"
  by (auto simp: sandbox_def sys_waitpid_alarm_def sb_do_def sb_say_def Let_def
      split: option.splits waitpid_result.splits prod.splits)

lemma sandbox_returns:
  assumes "sb_fork_fault e \<or> 0 < timeout \<or> sb_end e \<noteq> None"
  shows "fst (sandbox e timeout verbose) \<in> {Returns 1, Returns 0, Returns (-1)}"
  using assms
  by (auto simp: sandbox_def sys_waitpid_alarm_def sb_do_def sb_say_def Let_def
      split: option.splits waitpid_result.splits prod.splits)

end
